theory Spec2Isabelle
  imports Main "HOL-Library.Word" "HOL-Library.Finite_Map" "HOL-Library.Multiset"
begin

unbundle bit_operations_syntax

section \<open>Runtime failures and interface values\<close>

text \<open>
  A Go panic is a value of the model: indexing a slice out of range, dereferencing a
  nil pointer, a failed type assertion, and the semaphore's own panic when more is
  released than is held.
\<close>

datatype error = IndexOutOfRange | NilDereference | TypeAssertion | ReleasedMoreThanHeld

text \<open>
  The map stores \<^verbatim>\<open>interface{}\<close> values: either the nil interface or a value of the
  dynamic type \<open>'v\<close>. A lookup \<^verbatim>\<open>val, ok := shard.items[key]\<close> yields the stored value
  and \<open>True\<close>, or the zero value \<open>Nil\<close> and \<open>False\<close>.
\<close>

datatype 'v iface = Nil | Val 'v

section \<open>concurrent\_map.go\<close>

text \<open>
  \<^verbatim>\<open>ConcurrentMapShared.items\<close> is a Go map from strings to interface values: a finite
  map. The reader/writer lock of a shard is not modelled: every operation below is
  one critical section of one shard, executed atomically.
\<close>

type_synonym 'v items = "(string, 'v iface) fmap"

text \<open>\<^verbatim>\<open>type ConcurrentMap []*ConcurrentMapShared\<close>: a slice of shards.\<close>

type_synonym 'v ConcurrentMap = "'v items list"

definition ShardCount :: nat where
  "ShardCount = 32"

definition NewConcurrentMap :: "'v ConcurrentMap" where
  "NewConcurrentMap = replicate ShardCount fmempty"

text \<open>
  \<^verbatim>\<open>fnv.New32()\<close> of the Go standard library is the 32-bit FNV-1 hash: starting from
  the offset basis, every byte multiplies the hash by the prime (modulo \<open>2^32\<close>) and
  is then xor-ed in.
\<close>

definition offset32 :: "32 word" where
  "offset32 = 2166136261"

definition prime32 :: "32 word" where
  "prime32 = 16777619"

primrec fnv32_write :: "32 word \<Rightarrow> string \<Rightarrow> 32 word" where
  "fnv32_write h [] = h"
| "fnv32_write h (c # cs) = fnv32_write ((h * prime32) XOR of_nat (of_char c)) cs"

definition Sum32 :: "string \<Rightarrow> 32 word" where
  "Sum32 key = fnv32_write offset32 key"

text \<open>
  \<^verbatim>\<open>m[hash.Sum32()%uint32(ShardCount)]\<close>. The shard pointer that \<^verbatim>\<open>GetShard\<close> returns is
  modelled by the position of the shard in the slice; the index expression panics
  when the slice is shorter than the position.
\<close>

definition GetShard :: "'v ConcurrentMap \<Rightarrow> string \<Rightarrow> error + nat" where
  "GetShard m key =
     (let i = unat (Sum32 key mod of_nat ShardCount)
      in if i < length m then Inr i else Inl IndexOutOfRange)"

definition Set :: "'v ConcurrentMap \<Rightarrow> string \<Rightarrow> 'v iface \<Rightarrow> error + 'v ConcurrentMap" where
  "Set m key val =
     (case GetShard m key of
        Inl e \<Rightarrow> Inl e
      | Inr shard \<Rightarrow> Inr (m[shard := fmupd key val (m ! shard)]))"

definition SetIfAbsent ::
  "'v ConcurrentMap \<Rightarrow> string \<Rightarrow> 'v iface \<Rightarrow> error + (bool \<times> 'v ConcurrentMap)" where
  "SetIfAbsent m key val =
     (case GetShard m key of
        Inl e \<Rightarrow> Inl e
      | Inr shard \<Rightarrow>
          (let ok = (fmlookup (m ! shard) key \<noteq> None)
           in if \<not> ok then Inr (\<not> ok, m[shard := fmupd key val (m ! shard)])
              else Inr (\<not> ok, m)))"

text \<open>
  The read operations return the map next to their result, so that what they leave
  behind can be stated; they never assign to \<^verbatim>\<open>shard.items\<close>.
\<close>

definition Get ::
  "'v ConcurrentMap \<Rightarrow> string \<Rightarrow> error + (('v iface \<times> bool) \<times> 'v ConcurrentMap)" where
  "Get m key =
     (case GetShard m key of
        Inl e \<Rightarrow> Inl e
      | Inr shard \<Rightarrow>
          (case fmlookup (m ! shard) key of
             None \<Rightarrow> Inr ((Nil, False), m)
           | Some val \<Rightarrow> Inr ((val, True), m)))"

definition Has :: "'v ConcurrentMap \<Rightarrow> string \<Rightarrow> error + (bool \<times> 'v ConcurrentMap)" where
  "Has m key =
     (case GetShard m key of
        Inl e \<Rightarrow> Inl e
      | Inr shard \<Rightarrow> Inr (fmlookup (m ! shard) key \<noteq> None, m))"

definition Remove :: "'v ConcurrentMap \<Rightarrow> string \<Rightarrow> error + 'v ConcurrentMap" where
  "Remove m key =
     (case GetShard m key of
        Inl e \<Rightarrow> Inl e
      | Inr shard \<Rightarrow> Inr (m[shard := fmdrop key (m ! shard)]))"

definition Pop ::
  "'v ConcurrentMap \<Rightarrow> string \<Rightarrow> error + (('v iface \<times> bool) \<times> 'v ConcurrentMap)" where
  "Pop m key =
     (case GetShard m key of
        Inl e \<Rightarrow> Inl e
      | Inr shard \<Rightarrow>
          (let m' = m[shard := fmdrop key (m ! shard)]
           in case fmlookup (m ! shard) key of
                None \<Rightarrow> Inr ((Nil, False), m')
              | Some v \<Rightarrow> Inr ((v, True), m')))"

text \<open>
  \<^verbatim>\<open>Count\<close> visits the shards \<open>0 .. ShardCount - 1\<close> by index and adds up
  \<^verbatim>\<open>len(shard.items)\<close>.
\<close>

function Count_loop :: "'v ConcurrentMap \<Rightarrow> nat \<Rightarrow> nat \<Rightarrow> error + nat" where
  "Count_loop m i cnt =
     (if i < ShardCount
      then (if i < length m
            then Count_loop m (Suc i) (cnt + fcard (fmdom (m ! i)))
            else Inl IndexOutOfRange)
      else Inr cnt)"
  by pat_completeness auto
termination
  by (relation "measure (\<lambda>(m, i, cnt). ShardCount - i)") auto

definition Count :: "'v ConcurrentMap \<Rightarrow> error + (nat \<times> 'v ConcurrentMap)" where
  "Count m = (case Count_loop m 0 0 of Inl e \<Rightarrow> Inl e | Inr cnt \<Rightarrow> Inr (cnt, m))"

text \<open>
  \<^verbatim>\<open>Items\<close> ranges over the shards of the slice and copies every entry of a shard into
  \<^verbatim>\<open>tmp\<close>. Ranging over a Go map visits every key once, in an unspecified order; the
  assignments \<^verbatim>\<open>tmp[k] = v\<close> of one shard therefore amount to overriding \<^verbatim>\<open>tmp\<close> with
  the shard, whatever the order.
\<close>

primrec Items_loop :: "'v ConcurrentMap \<Rightarrow> 'v items \<Rightarrow> 'v items" where
  "Items_loop [] tmp = tmp"
| "Items_loop (shard # shards) tmp = Items_loop shards (tmp ++\<^sub>f shard)"

definition Items :: "'v ConcurrentMap \<Rightarrow> 'v items \<times> 'v ConcurrentMap" where
  "Items m = (Items_loop m fmempty, m)"

text \<open>
  \<^verbatim>\<open>Keys\<close> first calls \<^verbatim>\<open>Count\<close> for the capacity of the slice, then appends the keys
  of every shard. The order within a shard is that of Go's map iteration, which is
  unspecified: the returned slice is modelled up to order, as a multiset.
\<close>

primrec Keys_loop :: "'v ConcurrentMap \<Rightarrow> string multiset \<Rightarrow> string multiset" where
  "Keys_loop [] keys = keys"
| "Keys_loop (shard # shards) keys = Keys_loop shards (keys + mset_set (fset (fmdom shard)))"

definition Keys :: "'v ConcurrentMap \<Rightarrow> error + (string multiset \<times> 'v ConcurrentMap)" where
  "Keys m =
     (case Count m of
        Inl e \<Rightarrow> Inl e
      | Inr (cnt, m1) \<Rightarrow> Inr (Keys_loop m1 {#}, m1))"

text \<open>
  \<^verbatim>\<open>MarshalJSON\<close> builds \<^verbatim>\<open>tmp\<close> with a loop of its own and hands it to \<^verbatim>\<open>json.Marshal\<close>
  of the standard library, a parameter of the model.
\<close>

primrec MarshalJSON_loop :: "'v ConcurrentMap \<Rightarrow> 'v items \<Rightarrow> 'v items" where
  "MarshalJSON_loop [] tmp = tmp"
| "MarshalJSON_loop (shard # shards) tmp = MarshalJSON_loop shards (tmp ++\<^sub>f shard)"

definition MarshalJSON :: "('v items \<Rightarrow> 'j) \<Rightarrow> 'v ConcurrentMap \<Rightarrow> 'j" where
  "MarshalJSON json_Marshal m = json_Marshal (MarshalJSON_loop m fmempty)"

text \<open>
  A sequence of \<^verbatim>\<open>SetIfAbsent\<close> calls on one key, in the order in which they enter the
  shard's critical section; the results are collected in that order.
\<close>

fun SetIfAbsent_calls ::
  "'v ConcurrentMap \<Rightarrow> string \<Rightarrow> 'v iface list \<Rightarrow> error + (bool list \<times> 'v ConcurrentMap)" where
  "SetIfAbsent_calls m key [] = Inr ([], m)"
| "SetIfAbsent_calls m key (v # vs) =
     (case SetIfAbsent m key v of
        Inl e \<Rightarrow> Inl e
      | Inr (inserted, m') \<Rightarrow>
          (case SetIfAbsent_calls m' key vs of
             Inl e \<Rightarrow> Inl e
           | Inr (rest, m'') \<Rightarrow> Inr (inserted # rest, m'')))"

section \<open>The registry call (api.go) and the records it needs\<close>

text \<open>
  Of \<^verbatim>\<open>Config\<close> and \<^verbatim>\<open>Instance\<close> only the fields that the heartbeat scheduler reads or
  writes are kept.
\<close>

record Config =
  DefaultZone :: string
  LogLevel :: int

record Instance =
  App :: string
  InstanceID :: string
  Status :: string

text \<open>
  What the environment answers to one \<^verbatim>\<open>PUT\<close>: the zone URL cannot be built, the
  request fails, or a response with a status code arrives.
\<close>

datatype put_result = BuildURLFailed | SendFailed | StatusCode int

datatype heartbeat_error = ErrNotFound | ErrBuildURL | ErrSend | ErrInvalidStatusCode int

definition Heartbeat :: "string \<Rightarrow> string \<Rightarrow> string \<Rightarrow> put_result \<Rightarrow> heartbeat_error option" where
  "Heartbeat zone app instanceID result =
     (case result of
        BuildURLFailed \<Rightarrow> Some ErrBuildURL
      | SendFailed \<Rightarrow> Some ErrSend
      | StatusCode code \<Rightarrow>
          (if code = 200 then None
           else if code = 404 then Some ErrNotFound
           else Some (ErrInvalidStatusCode code)))"

text \<open>\<^verbatim>\<open>errors.Is(err, target)\<close> on these unwrapped errors is equality.\<close>

definition errors_Is :: "heartbeat_error \<Rightarrow> heartbeat_error \<Rightarrow> bool" where
  "errors_Is err target = (err = target)"

section \<open>The weighted semaphore\<close>

text \<open>
  \<^verbatim>\<open>golang.org/x/sync/semaphore\<close>: \<^verbatim>\<open>Acquire\<close> under the background context either
  takes its weight at once or blocks until another holder releases; it returns no
  error, since the background context is never cancelled. \<^verbatim>\<open>Release\<close> panics when
  more is released than is held.
\<close>

record Weighted =
  sem_size :: int
  sem_cur :: int

definition NewWeighted :: "int \<Rightarrow> Weighted" where
  "NewWeighted n = \<lparr>sem_size = n, sem_cur = 0\<rparr>"

datatype acquire_result = Acquired Weighted | Blocks

definition Acquire :: "Weighted \<Rightarrow> int \<Rightarrow> acquire_result" where
  "Acquire s n =
     (if sem_size s - sem_cur s \<ge> n then Acquired (s\<lparr>sem_cur := sem_cur s + n\<rparr>) else Blocks)"

definition Release :: "Weighted \<Rightarrow> int \<Rightarrow> error + Weighted" where
  "Release s n =
     (let c = sem_cur s - n
      in if c < 0 then Inl ReleasedMoreThanHeld else Inr (s\<lparr>sem_cur := c\<rparr>))"

section \<open>The heartbeat scheduler\<close>

text \<open>
  \<^verbatim>\<open>BeatReactor\<close>. The mutex is not modelled (\<^verbatim>\<open>AddBeatInfo\<close> and \<^verbatim>\<open>RemoveBeatInfo\<close>
  are atomic steps), nor is the logger. The live map stores \<^verbatim>\<open>*Instance\<close> pointers,
  modelled as addresses into a heap; the beat-record map stores \<^verbatim>\<open>int64\<close>
  milliseconds. \<^verbatim>\<open>Period\<close> is a \<^verbatim>\<open>time.Duration\<close>: signed 64-bit nanoseconds.
\<close>

record BeatReactor =
  config :: "Config option"
  beatMap :: "nat ConcurrentMap"
  clientBeatIntervalInSecs :: "64 word"
  beatThreadCount :: int
  beatThreadSemaphore :: Weighted
  beatRecordMap :: "64 word ConcurrentMap"
  Period :: "64 word"

definition DefaultBeatThreadNum :: int where
  "DefaultBeatThreadNum = 20"

definition Second :: "64 word" where
  "Second = 1000000000"

text \<open>
  The quotient of two \<^verbatim>\<open>int64\<close> values truncates towards zero. (The only divisor in
  this program is the constant \<open>10^6\<close>.)
\<close>

definition int64_quo :: "64 word \<Rightarrow> 64 word \<Rightarrow> 64 word" where
  "int64_quo a b = word_of_int (sgn (sint a) * sgn (sint b) * (\<bar>sint a\<bar> div \<bar>sint b\<bar>))"

text \<open>
  \<^verbatim>\<open>NewBeatReactor\<close> dereferences \<^verbatim>\<open>config\<close> for the log level, so a nil configuration
  panics. The comparison with zero is the signed one of \<^verbatim>\<open>int64\<close>; the product with
  \<^verbatim>\<open>time.Second\<close> is an \<^verbatim>\<open>int64\<close> product and wraps around.
\<close>

definition NewBeatReactor :: "Config option \<Rightarrow> 64 word \<Rightarrow> error + BeatReactor" where
  "NewBeatReactor cfg interval =
     (let clientBeatIntervalInSecs' = (if sint interval \<le> 0 then 5 else interval)
      in case cfg of
           None \<Rightarrow> Inl NilDereference
         | Some c \<Rightarrow>
             Inr \<lparr>config = cfg,
                  beatMap = NewConcurrentMap,
                  clientBeatIntervalInSecs = clientBeatIntervalInSecs',
                  beatThreadCount = DefaultBeatThreadNum,
                  beatThreadSemaphore = NewWeighted DefaultBeatThreadNum,
                  beatRecordMap = NewConcurrentMap,
                  Period = clientBeatIntervalInSecs' * Second\<rparr>)"

text \<open>
  The state that the scheduler's operations share: the heap of instance records,
  the reactor, and the background tasks launched so far, each with the key and the
  record pointer it was started with.
\<close>

record world =
  heap :: "nat \<rightharpoonup> Instance"
  reactor :: BeatReactor
  goroutines :: "(string \<times> nat) list"

definition AddBeatInfo :: "nat \<Rightarrow> world \<Rightarrow> error + world" where
  "AddBeatInfo beatInfo w =
     (case heap w beatInfo of
        None \<Rightarrow> Inl NilDereference
      | Some inst \<Rightarrow>
          (let k = InstanceID inst; br = reactor w
           in case Get (beatMap br) k of
                Inl e \<Rightarrow> Inl e
              | Inr ((data, ok), bm) \<Rightarrow>
                  (case (if ok
                         then (case data of
                                 Nil \<Rightarrow> Inl TypeAssertion
                               | Val old \<Rightarrow>
                                   (case heap w old of
                                      None \<Rightarrow> Inl NilDereference
                                    | Some oinst \<Rightarrow>
                                        (case Remove bm k of
                                           Inl e \<Rightarrow> Inl e
                                         | Inr bm' \<Rightarrow>
                                             Inr (old,
                                                  (heap w)(old \<mapsto> oinst\<lparr>Status := ''UP''\<rparr>),
                                                  bm'))))
                         else Inr (beatInfo, heap w, bm)) of
                     Inl e \<Rightarrow> Inl e
                   | Inr (beatInfo', heap', bm') \<Rightarrow>
                       (case Set bm' k (Val beatInfo') of
                          Inl e \<Rightarrow> Inl e
                        | Inr bm'' \<Rightarrow>
                            Inr (w\<lparr>heap := heap',
                                   reactor := br\<lparr>beatMap := bm''\<rparr>,
                                   goroutines := goroutines w @ [(k, beatInfo')]\<rparr>)))))"

definition RemoveBeatInfo :: "string \<Rightarrow> string \<Rightarrow> world \<Rightarrow> error + world" where
  "RemoveBeatInfo serviceName instanceId w =
     (let k = instanceId; br = reactor w
      in case Get (beatMap br) k of
           Inl e \<Rightarrow> Inl e
         | Inr ((data, exist), bm) \<Rightarrow>
             (case (if exist
                    then (case data of
                            Nil \<Rightarrow> Inl TypeAssertion
                          | Val beatInfo \<Rightarrow>
                              (case heap w beatInfo of
                                 None \<Rightarrow> Inl NilDereference
                               | Some inst \<Rightarrow>
                                   Inr ((heap w)(beatInfo \<mapsto> inst\<lparr>Status := ''UP''\<rparr>))))
                    else Inr (heap w)) of
                Inl e \<Rightarrow> Inl e
              | Inr heap' \<Rightarrow>
                  (case Remove bm k of
                     Inl e \<Rightarrow> Inl e
                   | Inr bm' \<Rightarrow> Inr (w\<lparr>heap := heap', reactor := br\<lparr>beatMap := bm'\<rparr>\<rparr>))))"

text \<open>
  One pass through the body of the \<^verbatim>\<open>for\<close> loop of \<^verbatim>\<open>sendInstanceBeat\<close>. The
  environment supplies the answer to the \<^verbatim>\<open>PUT\<close> and the clock reading
  \<^verbatim>\<open>time.Now().UnixNano()\<close>. The pass reports what the task does next and the events
  it went through, in order.
\<close>

datatype control = Continue | Return | Blocked

datatype event = EvAcquire | EvRelease | EvHeartbeat | EvSleep "64 word"

definition sendInstanceBeat_pass ::
  "put_result \<times> 64 word \<Rightarrow> string \<Rightarrow> nat \<Rightarrow> world \<Rightarrow> error + (control \<times> event list \<times> world)" where
  "sendInstanceBeat_pass env k beatInfo w =
     (let br = reactor w
      in case Acquire (beatThreadSemaphore br) 1 of
           Blocks \<Rightarrow> Inr (Blocked, [], w)
         | Acquired sem \<Rightarrow>
             (case heap w beatInfo of
                None \<Rightarrow> Inl NilDereference
              | Some inst \<Rightarrow>
                  if Status inst \<noteq> ''UP''
                  then (case Release sem 1 of
                          Inl e \<Rightarrow> Inl e
                        | Inr sem' \<Rightarrow>
                            Inr (Return, [EvAcquire, EvRelease],
                                 w\<lparr>reactor := br\<lparr>beatThreadSemaphore := sem'\<rparr>\<rparr>))
                  else
                    (case config br of
                       None \<Rightarrow> Inl NilDereference
                     | Some cfg \<Rightarrow>
                         (case Heartbeat (DefaultZone cfg) (App inst) (InstanceID inst) (fst env) of
                            Some err \<Rightarrow>
                              if errors_Is err ErrNotFound
                              then (case Remove (beatMap br) k of
                                      Inl e \<Rightarrow> Inl e
                                    | Inr bm \<Rightarrow>
                                        Inr (Return, [EvAcquire, EvHeartbeat],
                                             w\<lparr>reactor :=
                                                 br\<lparr>beatMap := bm, beatThreadSemaphore := sem\<rparr>\<rparr>))
                              else (case Release sem 1 of
                                      Inl e \<Rightarrow> Inl e
                                    | Inr sem' \<Rightarrow>
                                        Inr (Continue,
                                             [EvAcquire, EvHeartbeat, EvRelease, EvSleep (Period br)],
                                             w\<lparr>reactor := br\<lparr>beatThreadSemaphore := sem'\<rparr>\<rparr>))
                          | None \<Rightarrow>
                              (case Set (beatRecordMap br) k (Val (int64_quo (snd env) 1000000)) of
                                 Inl e \<Rightarrow> Inl e
                               | Inr rm \<Rightarrow>
                                   (case Release sem 1 of
                                      Inl e \<Rightarrow> Inl e
                                    | Inr sem' \<Rightarrow>
                                        Inr (Continue,
                                             [EvAcquire, EvHeartbeat, EvRelease, EvSleep (Period br)],
                                             w\<lparr>reactor :=
                                                 br\<lparr>beatThreadSemaphore := sem',
                                                    beatRecordMap := rm\<rparr>\<rparr>)))))))"

text \<open>
  The loop itself never ends on its own. It is run against a finite list of
  environment answers, one per pass: the result \<open>Continue\<close> says that the task has
  used up the list and is about to start another pass, \<open>Return\<close> that it has exited,
  \<open>Blocked\<close> that it waits for a slot of the semaphore.
\<close>

fun sendInstanceBeat ::
  "(put_result \<times> 64 word) list \<Rightarrow> string \<Rightarrow> nat \<Rightarrow> world
     \<Rightarrow> error + (control \<times> event list \<times> world)" where
  "sendInstanceBeat [] k beatInfo w = Inr (Continue, [], w)"
| "sendInstanceBeat (env # envs) k beatInfo w =
     (case sendInstanceBeat_pass env k beatInfo w of
        Inl e \<Rightarrow> Inl e
      | Inr (c, evs, w') \<Rightarrow>
          if c = Continue
          then (case sendInstanceBeat envs k beatInfo w' of
                  Inl e \<Rightarrow> Inl e
                | Inr (c', evs', w'') \<Rightarrow> Inr (c', evs @ evs', w''))
          else Inr (c, evs, w'))"

section \<open>A scenario\<close>

text \<open>
  A reactor as \<^verbatim>\<open>NewBeatReactor\<close> builds it for an interval of one second, and a heap
  with two instance records that carry the same instance id \<open>a\<close>: record \<open>1\<close> is the
  one registered first, record \<open>2\<close> the one a caller registers later under the same id.
\<close>

definition cfg0 :: Config where
  "cfg0 = \<lparr>DefaultZone = ''http://eureka/'', LogLevel = 0\<rparr>"

definition br0 :: BeatReactor where
  "br0 = \<lparr>config = Some cfg0,
          beatMap = NewConcurrentMap,
          clientBeatIntervalInSecs = 1,
          beatThreadCount = 20,
          beatThreadSemaphore = \<lparr>sem_size = 20, sem_cur = 0\<rparr>,
          beatRecordMap = NewConcurrentMap,
          Period = 1000000000\<rparr>"

definition world0 :: world where
  "world0 = \<lparr>heap = [1 \<mapsto> \<lparr>App = ''svc'', InstanceID = ''a'', Status = ''UP''\<rparr>,
                     2 \<mapsto> \<lparr>App = ''svc-v2'', InstanceID = ''a'', Status = ''UP''\<rparr>],
             reactor = br0,
             goroutines = []\<rparr>"

text \<open>
  The world that adding record \<open>1\<close> to \<open>world0\<close> leads to: the key \<open>a\<close> hashes to shard
  \<open>30\<close>, and one task has been launched.
\<close>

definition world1 :: world where
  "world1 = world0\<lparr>reactor := br0\<lparr>beatMap := NewConcurrentMap[30 := fmupd ''a'' (Val 1) fmempty]\<rparr>,
                   goroutines := [(''a'', 1)]\<rparr>"

section \<open>Properties of the map\<close>

lemma GetShard_ok:
  "length m = ShardCount \<Longrightarrow> \<exists>i. GetShard m key = Inr i \<and> i < length m"
proof -
  assume len: "length m = ShardCount"
  have "unat (Sum32 key mod 32) < unat (32 :: 32 word)"
    by (rule unat_mono) (simp add: word_mod_less_divisor)
  then have "unat (Sum32 key mod of_nat ShardCount) < length m"
    by (simp add: len ShardCount_def)
  then show ?thesis
    by (simp add: GetShard_def Let_def)
qed

lemma GetShard_same_length:
  "length m' = length m \<Longrightarrow> GetShard m' key = GetShard m key"
  by (simp add: GetShard_def)

lemma Set_Get:
  assumes "GetShard m k = Inr i" "i < length m"
  shows "Set m k v = Inr (m[i := fmupd k v (m ! i)])"
    and "Get (m[i := fmupd k v (m ! i)]) k = Inr ((v, True), m[i := fmupd k v (m ! i)])"
proof -
  show "Set m k v = Inr (m[i := fmupd k v (m ! i)])"
    by (simp add: Set_def assms(1))
  have "GetShard (m[i := fmupd k v (m ! i)]) k = Inr i"
    by (simp add: GetShard_same_length assms(1))
  then show "Get (m[i := fmupd k v (m ! i)]) k = Inr ((v, True), m[i := fmupd k v (m ! i)])"
    by (simp add: Get_def assms(2))
qed

lemma Remove_Get:
  assumes "GetShard m k = Inr i" "i < length m"
  shows "Remove m k = Inr (m[i := fmdrop k (m ! i)])"
    and "Get (m[i := fmdrop k (m ! i)]) k = Inr ((Nil, False), m[i := fmdrop k (m ! i)])"
proof -
  show "Remove m k = Inr (m[i := fmdrop k (m ! i)])"
    by (simp add: Remove_def assms(1))
  have "GetShard (m[i := fmdrop k (m ! i)]) k = Inr i"
    by (simp add: GetShard_same_length assms(1))
  then show "Get (m[i := fmdrop k (m ! i)]) k = Inr ((Nil, False), m[i := fmdrop k (m ! i)])"
    by (simp add: Get_def assms(2))
qed

text \<open>
  C5. Map round-trip: on a map with its \<open>ShardCount\<close> shards, \<open>Set(k,v)\<close> followed by
  \<open>Get(k)\<close> returns \<open>(v, true)\<close>, and \<open>Remove(k)\<close> followed by \<open>Get(k)\<close> returns the
  zero value with \<open>false\<close>; none of the three calls panics.
\<close>

theorem map_round_trip:
  assumes "length m = ShardCount"
  shows "(\<exists>m'. Set m k v = Inr m' \<and> Get m' k = Inr ((v, True), m'))
       \<and> (\<exists>m'. Remove m k = Inr m' \<and> Get m' k = Inr ((Nil, False), m'))"
proof -
  from GetShard_ok [OF assms] obtain i where i: "GetShard m k = Inr i" "i < length m"
    by blast
  show ?thesis
    using Set_Get [OF i] Remove_Get [OF i] by blast
qed

theorem map_round_trip_witness:
  "(\<exists>m'. Set (NewConcurrentMap :: nat ConcurrentMap) ''a'' (Val 7) = Inr m'
         \<and> Get m' ''a'' = Inr ((Val 7, True), m'))
   \<and> (\<exists>m'. Remove (NewConcurrentMap :: nat ConcurrentMap) ''a'' = Inr m'
         \<and> Get m' ''a'' = Inr ((Nil, False), m'))"
  using map_round_trip [of "NewConcurrentMap :: nat ConcurrentMap" "''a''" "Val 7"]
  by (simp add: NewConcurrentMap_def)

lemma GetShard_update:
  "GetShard (m[i := s]) key = GetShard m key"
  by (simp add: GetShard_def)

lemma Get_shard:
  assumes "GetShard m k = Inr i"
  shows "Get m k = Inr ((case fmlookup (m ! i) k of None \<Rightarrow> (Nil, False) | Some v \<Rightarrow> (v, True)), m)"
  by (simp add: Get_def assms split: option.split)

lemma Get_frame:
  assumes "GetShard m k' = Inr j" and "j < length m" and "fmlookup s k' = fmlookup (m ! i) k'"
  shows "\<exists>g. Get m k' = Inr (g, m) \<and> Get (m[i := s]) k' = Inr (g, m[i := s])"
proof -
  have sh: "GetShard (m[i := s]) k' = Inr j"
    by (simp add: GetShard_update assms(1))
  have eq: "fmlookup (m[i := s] ! j) k' = fmlookup (m ! j) k'"
  proof (cases "i = j")
    case True
    then show ?thesis using assms(2,3) by simp
  next
    case False
    then show ?thesis by simp
  qed
  show ?thesis
    unfolding Get_shard [OF assms(1)] Get_shard [OF sh] eq by simp
qed

lemma Get_ok:
  assumes "length m = ShardCount"
  shows "\<exists>g. Get m k = Inr (g, m)"
proof -
  from GetShard_ok [OF assms] obtain i where "GetShard m k = Inr i" by blast
  then show ?thesis by (simp add: Get_shard)
qed

lemma Count_loop_ok:
  "length m = ShardCount \<Longrightarrow> \<exists>n. Count_loop m i c = Inr n"
proof (induction m i c rule: Count_loop.induct)
  case (1 m i cnt)
  show ?case
  proof (cases "i < ShardCount")
    case True
    then have "i < length m" using "1.prems" by simp
    with True "1.IH" "1.prems" show ?thesis
      by (subst Count_loop.simps) simp
  next
    case False
    then show ?thesis by (subst Count_loop.simps) simp
  qed
qed

text \<open>
  C10. Single-key frame property. On a map with its \<open>ShardCount\<close> shards and for keys
  \<open>k \<noteq> k'\<close>, each of \<open>Set(k,v)\<close>, \<open>SetIfAbsent(k,v)\<close>, \<open>Remove(k)\<close> and \<open>Pop(k)\<close> succeeds
  and leaves what \<open>Get(k')\<close> returns (presence and stored value) as it was; and the read
  operations \<open>Get\<close>, \<open>Has\<close>, \<open>Count\<close>, \<open>Keys\<close> and \<open>Items\<close> succeed and leave the whole
  map as it was.
\<close>

theorem map_frame:
  assumes "length m = ShardCount" and "k \<noteq> k'"
  shows "(\<exists>g m1 ins m2 m3 r m4.
            Get m k' = Inr (g, m)
          \<and> Set m k v = Inr m1 \<and> Get m1 k' = Inr (g, m1)
          \<and> SetIfAbsent m k v = Inr (ins, m2) \<and> Get m2 k' = Inr (g, m2)
          \<and> Remove m k = Inr m3 \<and> Get m3 k' = Inr (g, m3)
          \<and> Pop m k = Inr (r, m4) \<and> Get m4 k' = Inr (g, m4))
       \<and> (\<exists>g h n ks. Get m k = Inr (g, m) \<and> Has m k = Inr (h, m) \<and> Count m = Inr (n, m)
             \<and> Keys m = Inr (ks, m) \<and> snd (Items m) = m)"
proof -
  from GetShard_ok [OF assms(1)] obtain i where i: "GetShard m k = Inr i" "i < length m"
    by blast
  from GetShard_ok [OF assms(1)] obtain j where j: "GetShard m k' = Inr j" "j < length m"
    by blast
  from Get_ok [OF assms(1)] obtain g where g: "Get m k' = Inr (g, m)"
    by blast
  have upd: "Get (m[i := fmupd k v (m ! i)]) k' = Inr (g, m[i := fmupd k v (m ! i)])"
    using Get_frame [OF j, of "fmupd k v (m ! i)" i] g assms(2) by simp
  have del: "Get (m[i := fmdrop k (m ! i)]) k' = Inr (g, m[i := fmdrop k (m ! i)])"
    using Get_frame [OF j, of "fmdrop k (m ! i)" i] g assms(2) by simp
  have set: "Set m k v = Inr (m[i := fmupd k v (m ! i)])"
    by (simp add: Set_def i)
  have sia: "\<exists>ins m2. SetIfAbsent m k v = Inr (ins, m2) \<and> Get m2 k' = Inr (g, m2)"
    using upd g by (cases "fmlookup (m ! i) k") (auto simp add: SetIfAbsent_def i)
  have rem: "Remove m k = Inr (m[i := fmdrop k (m ! i)])"
    by (simp add: Remove_def i)
  have pop: "\<exists>r. Pop m k = Inr (r, m[i := fmdrop k (m ! i)])"
    by (cases "fmlookup (m ! i) k") (auto simp add: Pop_def i Let_def)
  have writes: "\<exists>g m1 ins m2 m3 r m4.
            Get m k' = Inr (g, m)
          \<and> Set m k v = Inr m1 \<and> Get m1 k' = Inr (g, m1)
          \<and> SetIfAbsent m k v = Inr (ins, m2) \<and> Get m2 k' = Inr (g, m2)
          \<and> Remove m k = Inr m3 \<and> Get m3 k' = Inr (g, m3)
          \<and> Pop m k = Inr (r, m4) \<and> Get m4 k' = Inr (g, m4)"
    using g set upd sia rem del pop by blast
  from Get_ok [OF assms(1)] obtain g' where g': "Get m k = Inr (g', m)"
    by blast
  have has: "\<exists>h. Has m k = Inr (h, m)"
    by (simp add: Has_def i)
  from Count_loop_ok [OF assms(1)] obtain n where "Count_loop m 0 0 = Inr n"
    by blast
  then have cnt: "Count m = Inr (n, m)"
    by (simp add: Count_def)
  then have keys: "\<exists>ks. Keys m = Inr (ks, m)"
    by (simp add: Keys_def)
  have items: "snd (Items m) = m"
    by (simp add: Items_def)
  have reads: "\<exists>g h n ks. Get m k = Inr (g, m) \<and> Has m k = Inr (h, m) \<and> Count m = Inr (n, m)
             \<and> Keys m = Inr (ks, m) \<and> snd (Items m) = m"
    using g' has cnt keys items by blast
  from writes reads show ?thesis by (rule conjI)
qed

theorem map_frame_witness:
  "length (NewConcurrentMap[29 := fmupd ''b'' (Val (5::nat)) fmempty]) = ShardCount
   \<and> ''a'' \<noteq> ''b''
   \<and> Get (NewConcurrentMap[29 := fmupd ''b'' (Val (5::nat)) fmempty]) ''b''
       = Inr ((Val 5, True), NewConcurrentMap[29 := fmupd ''b'' (Val 5) fmempty])
   \<and> (\<exists>m1 ins m2 m3 r m4.
          Set (NewConcurrentMap[29 := fmupd ''b'' (Val (5::nat)) fmempty]) ''a'' (Val 7) = Inr m1
        \<and> Get m1 ''b'' = Inr ((Val 5, True), m1)
        \<and> SetIfAbsent (NewConcurrentMap[29 := fmupd ''b'' (Val (5::nat)) fmempty]) ''a'' (Val 7)
            = Inr (ins, m2)
        \<and> Get m2 ''b'' = Inr ((Val 5, True), m2)
        \<and> Remove (NewConcurrentMap[29 := fmupd ''b'' (Val (5::nat)) fmempty]) ''a'' = Inr m3
        \<and> Get m3 ''b'' = Inr ((Val 5, True), m3)
        \<and> Pop (NewConcurrentMap[29 := fmupd ''b'' (Val (5::nat)) fmempty]) ''a'' = Inr (r, m4)
        \<and> Get m4 ''b'' = Inr ((Val 5, True), m4))
   \<and> (\<exists>h n ks.
          Has (NewConcurrentMap[29 := fmupd ''b'' (Val (5::nat)) fmempty]) ''b''
            = Inr (h, NewConcurrentMap[29 := fmupd ''b'' (Val 5) fmempty])
        \<and> Count (NewConcurrentMap[29 := fmupd ''b'' (Val (5::nat)) fmempty])
            = Inr (n, NewConcurrentMap[29 := fmupd ''b'' (Val 5) fmempty])
        \<and> Keys (NewConcurrentMap[29 := fmupd ''b'' (Val (5::nat)) fmempty])
            = Inr (ks, NewConcurrentMap[29 := fmupd ''b'' (Val 5) fmempty])
        \<and> snd (Items (NewConcurrentMap[29 := fmupd ''b'' (Val (5::nat)) fmempty]))
            = NewConcurrentMap[29 := fmupd ''b'' (Val 5) fmempty])"
proof -
  let ?m = "NewConcurrentMap[29 := fmupd ''b'' (Val (5::nat)) fmempty]"
  have len: "length ?m = ShardCount"
    by (simp add: NewConcurrentMap_def)
  have ne: "''a'' \<noteq> ''b''"
    by simp
  have sh: "GetShard ?m ''b'' = Inr 29"
    by (simp add: GetShard_def Sum32_def offset32_def prime32_def ShardCount_def
        NewConcurrentMap_def)
  have get: "Get ?m ''b'' = Inr ((Val 5, True), ?m)"
    unfolding Get_shard [OF sh] by (simp add: NewConcurrentMap_def ShardCount_def)
  from map_frame [OF len ne, of "Val 7"] obtain g m1 ins m2 m3 r m4
    where g: "Get ?m ''b'' = Inr (g, ?m)"
      and w1: "Set ?m ''a'' (Val 7) = Inr m1" "Get m1 ''b'' = Inr (g, m1)"
      and w2: "SetIfAbsent ?m ''a'' (Val 7) = Inr (ins, m2)" "Get m2 ''b'' = Inr (g, m2)"
      and w3: "Remove ?m ''a'' = Inr m3" "Get m3 ''b'' = Inr (g, m3)"
      and w4: "Pop ?m ''a'' = Inr (r, m4)" "Get m4 ''b'' = Inr (g, m4)"
    by blast
  from g get have g_eq: "g = (Val 5, True)"
    by simp
  have writes: "\<exists>m1 ins m2 m3 r m4.
          Set ?m ''a'' (Val 7) = Inr m1 \<and> Get m1 ''b'' = Inr ((Val 5, True), m1)
        \<and> SetIfAbsent ?m ''a'' (Val 7) = Inr (ins, m2) \<and> Get m2 ''b'' = Inr ((Val 5, True), m2)
        \<and> Remove ?m ''a'' = Inr m3 \<and> Get m3 ''b'' = Inr ((Val 5, True), m3)
        \<and> Pop ?m ''a'' = Inr (r, m4) \<and> Get m4 ''b'' = Inr ((Val 5, True), m4)"
    using w1 w2 w3 w4 unfolding g_eq
    by (intro exI [of _ m1] exI [of _ ins] exI [of _ m2] exI [of _ m3] exI [of _ r]
        exI [of _ m4] conjI)
  have ne': "''b'' \<noteq> ''a''"
    by simp
  from map_frame [OF len ne', of "Val 7"] obtain g' h n ks
    where "Get ?m ''b'' = Inr (g', ?m)" and r1: "Has ?m ''b'' = Inr (h, ?m)"
      and r2: "Count ?m = Inr (n, ?m)" and r3: "Keys ?m = Inr (ks, ?m)"
      and r4: "snd (Items ?m) = ?m"
    by blast
  have reads: "\<exists>h n ks. Has ?m ''b'' = Inr (h, ?m) \<and> Count ?m = Inr (n, ?m)
        \<and> Keys ?m = Inr (ks, ?m) \<and> snd (Items ?m) = ?m"
    using r1 r2 r3 r4
    by (intro exI [of _ h] exI [of _ n] exI [of _ ks] conjI)
  show ?thesis
    using len ne get writes reads by (intro conjI)
qed

lemma SetIfAbsent_calls_present:
  assumes "GetShard m k = Inr i" and "fmlookup (m ! i) k = Some old"
  shows "SetIfAbsent_calls m k vs = Inr (replicate (length vs) False, m)"
proof (induction vs)
  case Nil
  show ?case by simp
next
  case (Cons v vs)
  have "SetIfAbsent m k v = Inr (False, m)"
    by (simp add: SetIfAbsent_def assms)
  with Cons.IH show ?case by simp
qed

text \<open>
  C6. On a map with its \<open>ShardCount\<close> shards, \<open>SetIfAbsent(k,v)\<close> returns \<open>true\<close> exactly
  when \<open>k\<close> had no value; in that case \<open>v\<close> is stored under \<open>k\<close>, otherwise the map is left
  as it was. Hence a sequence of \<open>SetIfAbsent\<close> calls on a key that is absent at first
  reports \<open>true\<close> to the first call and \<open>false\<close> to every later one.
\<close>

theorem SetIfAbsent_first_wins:
  assumes "length m = ShardCount"
  shows "\<exists>old present m'.
           Get m k = Inr ((old, present), m)
         \<and> SetIfAbsent m k v = Inr (\<not> present, m')
         \<and> (\<not> present \<longrightarrow> Get m' k = Inr ((v, True), m'))
         \<and> (present \<longrightarrow> m' = m)
         \<and> (\<not> present \<longrightarrow>
              (\<exists>m''. SetIfAbsent_calls m k (v # vs) = Inr (True # replicate (length vs) False, m'')))"
proof -
  from GetShard_ok [OF assms] obtain i where i: "GetShard m k = Inr i" "i < length m"
    by blast
  show ?thesis
  proof (cases "fmlookup (m ! i) k")
    case None
    let ?m' = "m[i := fmupd k v (m ! i)]"
    have get: "Get m k = Inr ((Nil, False), m)"
      by (simp add: Get_shard [OF i(1)] None)
    have sia: "SetIfAbsent m k v = Inr (True, ?m')"
      by (simp add: SetIfAbsent_def i(1) None)
    have sh: "GetShard ?m' k = Inr i"
      by (simp add: GetShard_update i(1))
    have look: "fmlookup (?m' ! i) k = Some v"
      using i(2) by simp
    have get': "Get ?m' k = Inr ((v, True), ?m')"
      by (simp add: Get_shard [OF sh] look)
    have "SetIfAbsent_calls ?m' k vs = Inr (replicate (length vs) False, ?m')"
      by (rule SetIfAbsent_calls_present [OF sh look])
    then have calls: "SetIfAbsent_calls m k (v # vs) = Inr (True # replicate (length vs) False, ?m')"
      by (simp add: sia)
    have sia': "SetIfAbsent m k v = Inr (\<not> False, ?m')"
      by (simp add: sia)
    from get sia' get' calls show ?thesis by blast
  next
    case (Some old)
    have get: "Get m k = Inr ((old, True), m)"
      by (simp add: Get_shard [OF i(1)] Some)
    have sia: "SetIfAbsent m k v = Inr (False, m)"
      by (simp add: SetIfAbsent_def i(1) Some)
    show ?thesis
      by (rule exI [of _ old], rule exI [of _ True], rule exI [of _ m])
         (simp add: get sia)
  qed
qed

theorem SetIfAbsent_first_wins_witness:
  "length (NewConcurrentMap :: nat ConcurrentMap) = ShardCount
   \<and> (\<exists>m'. SetIfAbsent NewConcurrentMap ''a'' (Val (7::nat)) = Inr (True, m')
          \<and> Get m' ''a'' = Inr ((Val 7, True), m'))
   \<and> (\<exists>m''. SetIfAbsent_calls NewConcurrentMap ''a'' [Val (7::nat), Val 8, Val 9]
          = Inr ([True, False, False], m''))
   \<and> SetIfAbsent (NewConcurrentMap[30 := fmupd ''a'' (Val (7::nat)) fmempty]) ''a'' (Val 8)
       = Inr (False, NewConcurrentMap[30 := fmupd ''a'' (Val 7) fmempty])"
proof -
  let ?m = "NewConcurrentMap[30 := fmupd ''a'' (Val (7::nat)) fmempty]"
  have len0: "length (NewConcurrentMap :: nat ConcurrentMap) = ShardCount"
    by (simp add: NewConcurrentMap_def)
  have len: "length ?m = ShardCount"
    by (simp add: NewConcurrentMap_def)
  have get0: "Get (NewConcurrentMap :: nat ConcurrentMap) ''a'' = Inr ((Nil, False), NewConcurrentMap)"
    using GetShard_ok [OF len0, of "''a''"]
    by (auto simp add: Get_shard NewConcurrentMap_def)
  have sh: "GetShard ?m ''a'' = Inr 30"
    by (simp add: GetShard_def Sum32_def offset32_def prime32_def ShardCount_def
        NewConcurrentMap_def)
  have get: "Get ?m ''a'' = Inr ((Val 7, True), ?m)"
    unfolding Get_shard [OF sh] by (simp add: NewConcurrentMap_def ShardCount_def)
  from SetIfAbsent_first_wins [OF len0, of "''a''" "Val 7" "[Val 8, Val 9]"] get0
  have absent: "(\<exists>m'. SetIfAbsent NewConcurrentMap ''a'' (Val (7::nat)) = Inr (True, m')
          \<and> Get m' ''a'' = Inr ((Val 7, True), m'))
     \<and> (\<exists>m''. SetIfAbsent_calls NewConcurrentMap ''a'' [Val (7::nat), Val 8, Val 9]
          = Inr ([True, False, False], m''))"
    by auto
  from SetIfAbsent_first_wins [OF len, of "''a''" "Val 8" "[]"] get
  have present: "SetIfAbsent ?m ''a'' (Val 8) = Inr (False, ?m)"
    by auto
  from len0 absent present show ?thesis
    by blast
qed

text \<open>
  C7. On a map with its \<open>ShardCount\<close> shards, \<open>Pop(k)\<close> never fails: it returns what
  \<open>Get(k)\<close> returns, value and found flag, and afterwards \<open>k\<close> is absent; when \<open>k\<close> was
  absent the value is the nil interface, the flag is \<open>false\<close> and the map is unchanged.
\<close>

theorem Pop_read_then_delete:
  assumes "length m = ShardCount"
  shows "\<exists>v found m'.
           Get m k = Inr ((v, found), m)
         \<and> Pop m k = Inr ((v, found), m')
         \<and> Get m' k = Inr ((Nil, False), m')
         \<and> (\<not> found \<longrightarrow> v = Nil \<and> m' = m)"
proof -
  from GetShard_ok [OF assms] obtain i where i: "GetShard m k = Inr i" "i < length m"
    by blast
  let ?m' = "m[i := fmdrop k (m ! i)]"
  have sh: "GetShard ?m' k = Inr i"
    by (simp add: GetShard_update i(1))
  have get': "Get ?m' k = Inr ((Nil, False), ?m')"
    using i(2) by (simp add: Get_shard [OF sh])
  show ?thesis
  proof (cases "fmlookup (m ! i) k")
    case None
    then have "fmdrop k (m ! i) = m ! i"
      by (simp add: fmdrop_idle fmdom_notI)
    then have same: "?m' = m"
      by simp
    have get: "Get m k = Inr ((Nil, False), m)"
      by (simp add: Get_shard [OF i(1)] None)
    have pop: "Pop m k = Inr ((Nil, False), ?m')"
      by (simp add: Pop_def i(1) None)
    show ?thesis
      by (rule exI [of _ Nil], rule exI [of _ False], rule exI [of _ ?m'])
         (simp add: get pop get' same)
  next
    case (Some v)
    have get: "Get m k = Inr ((v, True), m)"
      by (simp add: Get_shard [OF i(1)] Some)
    have pop: "Pop m k = Inr ((v, True), ?m')"
      by (simp add: Pop_def i(1) Some)
    show ?thesis
      by (rule exI [of _ v], rule exI [of _ True], rule exI [of _ ?m'])
         (simp add: get pop get')
  qed
qed

theorem Pop_read_then_delete_witness:
  "length (NewConcurrentMap[30 := fmupd ''a'' (Val (7::nat)) fmempty]) = ShardCount
   \<and> Get (NewConcurrentMap[30 := fmupd ''a'' (Val (7::nat)) fmempty]) ''a''
       = Inr ((Val 7, True), NewConcurrentMap[30 := fmupd ''a'' (Val 7) fmempty])
   \<and> (\<exists>m'. Pop (NewConcurrentMap[30 := fmupd ''a'' (Val (7::nat)) fmempty]) ''a''
               = Inr ((Val 7, True), m')
          \<and> Get m' ''a'' = Inr ((Nil, False), m'))
   \<and> Pop (NewConcurrentMap :: nat ConcurrentMap) ''a'' = Inr ((Nil, False), NewConcurrentMap)"
proof -
  let ?m = "NewConcurrentMap[30 := fmupd ''a'' (Val (7::nat)) fmempty]"
  have len: "length ?m = ShardCount"
    by (simp add: NewConcurrentMap_def)
  have len0: "length (NewConcurrentMap :: nat ConcurrentMap) = ShardCount"
    by (simp add: NewConcurrentMap_def)
  have sh: "GetShard ?m ''a'' = Inr 30"
    by (simp add: GetShard_def Sum32_def offset32_def prime32_def ShardCount_def
        NewConcurrentMap_def)
  have get: "Get ?m ''a'' = Inr ((Val 7, True), ?m)"
    unfolding Get_shard [OF sh] by (simp add: NewConcurrentMap_def ShardCount_def)
  have get0: "Get (NewConcurrentMap :: nat ConcurrentMap) ''a'' = Inr ((Nil, False), NewConcurrentMap)"
    using GetShard_ok [OF len0, of "''a''"]
    by (auto simp add: Get_shard NewConcurrentMap_def)
  from Pop_read_then_delete [OF len, of "''a''"] get
  have present: "\<exists>m'. Pop ?m ''a'' = Inr ((Val 7, True), m') \<and> Get m' ''a'' = Inr ((Nil, False), m')"
    by auto
  from Pop_read_then_delete [OF len0, of "''a''"] get0
  have absent: "Pop (NewConcurrentMap :: nat ConcurrentMap) ''a'' = Inr ((Nil, False), NewConcurrentMap)"
    by auto
  from len get present absent show ?thesis
    by blast
qed

lemma MarshalJSON_loop_Items_loop:
  "MarshalJSON_loop m tmp = Items_loop m tmp"
  by (induction m arbitrary: tmp) simp_all

text \<open>
  C9. For every map state and every encoder, \<open>MarshalJSON\<close> returns the encoding of
  the very map that \<open>Items\<close> returns.
\<close>

theorem MarshalJSON_Items:
  "MarshalJSON json_Marshal m = json_Marshal (fst (Items m))"
  by (simp add: MarshalJSON_def Items_def MarshalJSON_loop_Items_loop)

section \<open>Properties of the scheduler\<close>

lemma Set_ok:
  assumes "length m = ShardCount"
  shows "\<exists>m'. Set m k v = Inr m' \<and> length m' = ShardCount \<and> Get m' k = Inr ((v, True), m')"
proof -
  from GetShard_ok [OF assms] obtain i where i: "GetShard m k = Inr i" "i < length m"
    by blast
  from Set_Get [OF i, of v] assms show ?thesis by simp
qed

lemma Remove_ok:
  assumes "length m = ShardCount"
  shows "\<exists>m'. Remove m k = Inr m' \<and> length m' = ShardCount
              \<and> Get m' k = Inr ((Nil, False), m')"
proof -
  from GetShard_ok [OF assms] obtain i where i: "GetShard m k = Inr i" "i < length m"
    by blast
  from Remove_Get [OF i] assms show ?thesis by simp
qed

lemma Get_NewConcurrentMap:
  "Get NewConcurrentMap k = Inr ((Nil, False), NewConcurrentMap)"
proof -
  have len: "length (NewConcurrentMap :: 'a ConcurrentMap) = ShardCount"
    by (simp add: NewConcurrentMap_def)
  from GetShard_ok [OF len] obtain i
    where i: "GetShard (NewConcurrentMap :: 'a ConcurrentMap) k = Inr i"
      "i < length (NewConcurrentMap :: 'a ConcurrentMap)"
    by blast
  have "fmlookup ((NewConcurrentMap :: 'a ConcurrentMap) ! i) k = None"
    using i(2) by (simp add: NewConcurrentMap_def)
  then show ?thesis
    by (simp add: Get_shard [OF i(1)])
qed

lemma AddBeatInfo_absent:
  assumes len: "length (beatMap (reactor w)) = ShardCount"
    and b: "heap w b = Some inst"
    and get: "Get (beatMap (reactor w)) (InstanceID inst)
                = Inr ((Nil, False), beatMap (reactor w))"
  shows "\<exists>bm. length bm = ShardCount
             \<and> Get bm (InstanceID inst) = Inr ((Val b, True), bm)
             \<and> AddBeatInfo b w =
                 Inr (w\<lparr>reactor := (reactor w)\<lparr>beatMap := bm\<rparr>,
                        goroutines := goroutines w @ [(InstanceID inst, b)]\<rparr>)"
proof -
  from Set_ok [OF len, of "InstanceID inst" "Val b"] obtain bm
    where bm: "Set (beatMap (reactor w)) (InstanceID inst) (Val b) = Inr bm"
      "length bm = ShardCount" "Get bm (InstanceID inst) = Inr ((Val b, True), bm)"
    by blast
  have "AddBeatInfo b w =
          Inr (w\<lparr>reactor := (reactor w)\<lparr>beatMap := bm\<rparr>,
                 goroutines := goroutines w @ [(InstanceID inst, b)]\<rparr>)"
    by (simp add: AddBeatInfo_def b get bm(1))
  with bm(2,3) show ?thesis by blast
qed

lemma AddBeatInfo_present:
  assumes len: "length (beatMap (reactor w)) = ShardCount"
    and b: "heap w b = Some inst"
    and get: "Get (beatMap (reactor w)) (InstanceID inst)
                = Inr ((Val old, True), beatMap (reactor w))"
    and old: "heap w old = Some oinst"
  shows "\<exists>bm. length bm = ShardCount
             \<and> Get bm (InstanceID inst) = Inr ((Val old, True), bm)
             \<and> AddBeatInfo b w =
                 Inr (w\<lparr>heap := (heap w)(old \<mapsto> oinst\<lparr>Status := ''UP''\<rparr>),
                        reactor := (reactor w)\<lparr>beatMap := bm\<rparr>,
                        goroutines := goroutines w @ [(InstanceID inst, old)]\<rparr>)"
proof -
  from Remove_ok [OF len, of "InstanceID inst"] obtain bm1
    where bm1: "Remove (beatMap (reactor w)) (InstanceID inst) = Inr bm1"
      "length bm1 = ShardCount"
    by blast
  from Set_ok [OF bm1(2), of "InstanceID inst" "Val old"] obtain bm
    where bm: "Set bm1 (InstanceID inst) (Val old) = Inr bm"
      "length bm = ShardCount" "Get bm (InstanceID inst) = Inr ((Val old, True), bm)"
    by blast
  have "AddBeatInfo b w =
          Inr (w\<lparr>heap := (heap w)(old \<mapsto> oinst\<lparr>Status := ''UP''\<rparr>),
                 reactor := (reactor w)\<lparr>beatMap := bm\<rparr>,
                 goroutines := goroutines w @ [(InstanceID inst, old)]\<rparr>)"
    by (simp add: AddBeatInfo_def b get old bm1(1) bm(1))
  with bm(2,3) show ?thesis by blast
qed

lemma RemoveBeatInfo_present:
  assumes len: "length (beatMap (reactor w)) = ShardCount"
    and get: "Get (beatMap (reactor w)) k = Inr ((Val b, True), beatMap (reactor w))"
    and b: "heap w b = Some inst"
  shows "\<exists>bm. length bm = ShardCount
             \<and> Get bm k = Inr ((Nil, False), bm)
             \<and> RemoveBeatInfo serviceName k w =
                 Inr (w\<lparr>heap := (heap w)(b \<mapsto> inst\<lparr>Status := ''UP''\<rparr>),
                        reactor := (reactor w)\<lparr>beatMap := bm\<rparr>\<rparr>)"
proof -
  from Remove_ok [OF len, of k] obtain bm
    where bm: "Remove (beatMap (reactor w)) k = Inr bm"
      "length bm = ShardCount" "Get bm k = Inr ((Nil, False), bm)"
    by blast
  have "RemoveBeatInfo serviceName k w =
          Inr (w\<lparr>heap := (heap w)(b \<mapsto> inst\<lparr>Status := ''UP''\<rparr>),
                 reactor := (reactor w)\<lparr>beatMap := bm\<rparr>\<rparr>)"
    by (simp add: RemoveBeatInfo_def get b bm(1))
  with bm(2,3) show ?thesis by blast
qed

lemma pass_not_found:
  assumes sem: "sem_cur (beatThreadSemaphore (reactor w)) < sem_size (beatThreadSemaphore (reactor w))"
    and b: "heap w b = Some inst"
    and up: "Status inst = ''UP''"
    and cfg: "config (reactor w) = Some cfg"
    and hb: "Heartbeat (DefaultZone cfg) (App inst) (InstanceID inst) (fst env) = Some ErrNotFound"
    and len: "length (beatMap (reactor w)) = ShardCount"
  shows "\<exists>bm. length bm = ShardCount \<and> Get bm k = Inr ((Nil, False), bm)
           \<and> sendInstanceBeat_pass env k b w =
               Inr (Return, [EvAcquire, EvHeartbeat],
                    w\<lparr>reactor := (reactor w)
                        \<lparr>beatMap := bm,
                         beatThreadSemaphore := (beatThreadSemaphore (reactor w))
                           \<lparr>sem_cur := sem_cur (beatThreadSemaphore (reactor w)) + 1\<rparr>\<rparr>\<rparr>)"
proof -
  from Remove_ok [OF len, of k] obtain bm
    where bm: "Remove (beatMap (reactor w)) k = Inr bm"
      "length bm = ShardCount" "Get bm k = Inr ((Nil, False), bm)"
    by blast
  have "sendInstanceBeat_pass env k b w =
               Inr (Return, [EvAcquire, EvHeartbeat],
                    w\<lparr>reactor := (reactor w)
                        \<lparr>beatMap := bm,
                         beatThreadSemaphore := (beatThreadSemaphore (reactor w))
                           \<lparr>sem_cur := sem_cur (beatThreadSemaphore (reactor w)) + 1\<rparr>\<rparr>\<rparr>)"
    using sem by (simp add: sendInstanceBeat_pass_def Let_def Acquire_def b up cfg hb errors_Is_def bm(1))
  with bm(2,3) show ?thesis by blast
qed

lemma pass_transient:
  assumes sem: "sem_cur (beatThreadSemaphore (reactor w)) < sem_size (beatThreadSemaphore (reactor w))"
    and nonneg: "0 \<le> sem_cur (beatThreadSemaphore (reactor w))"
    and b: "heap w b = Some inst"
    and up: "Status inst = ''UP''"
    and cfg: "config (reactor w) = Some cfg"
    and hb: "Heartbeat (DefaultZone cfg) (App inst) (InstanceID inst) (fst env) = Some err"
    and err: "err \<noteq> ErrNotFound"
  shows "sendInstanceBeat_pass env k b w =
           Inr (Continue, [EvAcquire, EvHeartbeat, EvRelease, EvSleep (Period (reactor w))], w)"
  using sem nonneg err
  by (simp add: sendInstanceBeat_pass_def Let_def Acquire_def Release_def b up cfg hb errors_Is_def)

lemma pass_success:
  assumes sem: "sem_cur (beatThreadSemaphore (reactor w)) < sem_size (beatThreadSemaphore (reactor w))"
    and nonneg: "0 \<le> sem_cur (beatThreadSemaphore (reactor w))"
    and b: "heap w b = Some inst"
    and up: "Status inst = ''UP''"
    and cfg: "config (reactor w) = Some cfg"
    and hb: "Heartbeat (DefaultZone cfg) (App inst) (InstanceID inst) (fst env) = None"
    and len: "length (beatRecordMap (reactor w)) = ShardCount"
  shows "\<exists>rm. length rm = ShardCount
           \<and> Get rm k = Inr ((Val (int64_quo (snd env) 1000000), True), rm)
           \<and> sendInstanceBeat_pass env k b w =
               Inr (Continue, [EvAcquire, EvHeartbeat, EvRelease, EvSleep (Period (reactor w))],
                    w\<lparr>reactor := (reactor w)\<lparr>beatRecordMap := rm\<rparr>\<rparr>)"
proof -
  from Set_ok [OF len, of k "Val (int64_quo (snd env) 1000000)"] obtain rm
    where rm: "Set (beatRecordMap (reactor w)) k (Val (int64_quo (snd env) 1000000)) = Inr rm"
      "length rm = ShardCount" "Get rm k = Inr ((Val (int64_quo (snd env) 1000000), True), rm)"
    by blast
  have "sendInstanceBeat_pass env k b w =
               Inr (Continue, [EvAcquire, EvHeartbeat, EvRelease, EvSleep (Period (reactor w))],
                    w\<lparr>reactor := (reactor w)\<lparr>beatRecordMap := rm\<rparr>\<rparr>)"
    using sem nonneg
    by (simp add: sendInstanceBeat_pass_def Let_def Acquire_def Release_def b up cfg hb rm(1))
  with rm(2,3) show ?thesis by blast
qed

lemma br0_is_NewBeatReactor:
  "NewBeatReactor (Some cfg0) 1 = Inr br0"
  by (simp add: NewBeatReactor_def br0_def DefaultBeatThreadNum_def NewWeighted_def Second_def)

lemma world0_facts:
  "heap world0 1 = Some \<lparr>App = ''svc'', InstanceID = ''a'', Status = ''UP''\<rparr>"
  "heap world0 2 = Some \<lparr>App = ''svc-v2'', InstanceID = ''a'', Status = ''UP''\<rparr>"
  "length (beatMap (reactor world0)) = ShardCount"
  "length (beatRecordMap (reactor world0)) = ShardCount"
  "Get (beatMap (reactor world0)) ''a'' = Inr ((Nil, False), beatMap (reactor world0))"
  "config (reactor world0) = Some cfg0"
  "beatThreadSemaphore (reactor world0) = \<lparr>sem_size = 20, sem_cur = 0\<rparr>"
  "goroutines world0 = []"
  by (simp_all add: world0_def br0_def Get_NewConcurrentMap) (simp_all add: NewConcurrentMap_def)

lemma shard_a: "GetShard m ''a'' = (if 30 < length m then Inr 30 else Inl IndexOutOfRange)"
  by (simp add: GetShard_def Sum32_def offset32_def prime32_def ShardCount_def)

lemma world1_is_add: "AddBeatInfo 1 world0 = Inr world1"
  using world0_facts(1)
  by (simp add: AddBeatInfo_def Let_def world1_def Get_def Set_def shard_a world0_def br0_def NewConcurrentMap_def ShardCount_def)


lemma world1_facts:
  "heap world1 1 = Some \<lparr>App = ''svc'', InstanceID = ''a'', Status = ''UP''\<rparr>"
  "heap world1 2 = Some \<lparr>App = ''svc-v2'', InstanceID = ''a'', Status = ''UP''\<rparr>"
  "length (beatMap (reactor world1)) = ShardCount"
  "length (beatRecordMap (reactor world1)) = ShardCount"
  "Get (beatMap (reactor world1)) ''a'' = Inr ((Val 1, True), beatMap (reactor world1))"
  "config (reactor world1) = Some cfg0"
  "beatThreadSemaphore (reactor world1) = \<lparr>sem_size = 20, sem_cur = 0\<rparr>"
  "goroutines world1 = [(''a'', 1)]"
  using world0_facts(1,2)
  by (simp_all add: world1_def br0_def Get_def shard_a NewConcurrentMap_def ShardCount_def)

text \<open>
  C1. Not every outcome releases the slot. In the scenario, after record \<open>1\<close> has been
  added, a pass whose heartbeat is answered with status 404 removes the key from the
  live map and returns, and its events hold no release: the semaphore that had no
  slot in use before the pass has one in use after the task has exited.
\<close>

theorem not_found_exit_keeps_slot:
  "AddBeatInfo 1 world0 = Inr world1
   \<and> sem_cur (beatThreadSemaphore (reactor world1)) = 0
   \<and> (\<exists>w2. sendInstanceBeat_pass (StatusCode 404, 0) ''a'' 1 world1
               = Inr (Return, [EvAcquire, EvHeartbeat], w2)
          \<and> sem_cur (beatThreadSemaphore (reactor w2)) = 1
          \<and> Get (beatMap (reactor w2)) ''a'' = Inr ((Nil, False), beatMap (reactor w2)))"
proof -
  let ?inst = "\<lparr>App = ''svc'', InstanceID = ''a'', Status = ''UP''\<rparr>"
  have sem: "sem_cur (beatThreadSemaphore (reactor world1))
               < sem_size (beatThreadSemaphore (reactor world1))"
    by (simp add: world1_facts)
  have up: "Status ?inst = ''UP''"
    by simp
  have hb: "Heartbeat (DefaultZone cfg0) (App ?inst) (InstanceID ?inst)
              (fst (StatusCode 404, 0 :: 64 word)) = Some ErrNotFound"
    by (simp add: Heartbeat_def)
  from pass_not_found [OF sem world1_facts(1) up world1_facts(6) hb world1_facts(3), of "''a''"]
  have "\<exists>w2. sendInstanceBeat_pass (StatusCode 404, 0) ''a'' 1 world1
               = Inr (Return, [EvAcquire, EvHeartbeat], w2)
          \<and> sem_cur (beatThreadSemaphore (reactor w2)) = 1
          \<and> Get (beatMap (reactor w2)) ''a'' = Inr ((Nil, False), beatMap (reactor w2))"
    by (auto simp add: world1_facts)
  with world1_is_add show ?thesis
    by (simp add: world1_facts(7))
qed

text \<open>
  C4. While the record's status is \<open>UP\<close> and a slot is free, a run of the task against
  answers that are all transient errors (any error other than not-found) never
  exits: every pass acquires the slot, sends the heartbeat, releases the slot and
  sleeps one period, and the task is then about to start the next pass, for as many
  answers as there are. The whole state, and so the live map with its entry, the
  record and its status, the beat-record map and the semaphore, is afterwards what
  it was before.
\<close>

theorem transient_error_retries:
  assumes sem: "sem_cur (beatThreadSemaphore (reactor w)) < sem_size (beatThreadSemaphore (reactor w))"
    and nonneg: "0 \<le> sem_cur (beatThreadSemaphore (reactor w))"
    and b: "heap w b = Some inst"
    and up: "Status inst = ''UP''"
    and cfg: "config (reactor w) = Some cfg"
    and transient: "\<forall>env \<in> set envs. \<exists>err.
            Heartbeat (DefaultZone cfg) (App inst) (InstanceID inst) (fst env) = Some err
            \<and> err \<noteq> ErrNotFound"
  shows "sendInstanceBeat envs k b w =
           Inr (Continue,
                concat (map (\<lambda>env. [EvAcquire, EvHeartbeat, EvRelease, EvSleep (Period (reactor w))]) envs),
                w)"
  using transient
proof (induction envs)
  case Nil
  show ?case by simp
next
  case (Cons env envs)
  from Cons.prems obtain err
    where hb: "Heartbeat (DefaultZone cfg) (App inst) (InstanceID inst) (fst env) = Some err"
      and err: "err \<noteq> ErrNotFound"
    by auto
  have pass: "sendInstanceBeat_pass env k b w =
           Inr (Continue, [EvAcquire, EvHeartbeat, EvRelease, EvSleep (Period (reactor w))], w)"
    by (rule pass_transient [OF sem nonneg b up cfg hb err])
  have rest: "sendInstanceBeat envs k b w =
           Inr (Continue,
                concat (map (\<lambda>env. [EvAcquire, EvHeartbeat, EvRelease, EvSleep (Period (reactor w))]) envs),
                w)"
    using Cons.prems by (intro Cons.IH) simp
  show ?case
    by (simp add: pass rest)
qed

theorem transient_error_retries_witness:
  "sem_cur (beatThreadSemaphore (reactor world1)) < sem_size (beatThreadSemaphore (reactor world1))
   \<and> 0 \<le> sem_cur (beatThreadSemaphore (reactor world1))
   \<and> heap world1 1 = Some \<lparr>App = ''svc'', InstanceID = ''a'', Status = ''UP''\<rparr>
   \<and> config (reactor world1) = Some cfg0
   \<and> Get (beatMap (reactor world1)) ''a'' = Inr ((Val 1, True), beatMap (reactor world1))
   \<and> sendInstanceBeat
         [(SendFailed, 0), (StatusCode 500, 1), (BuildURLFailed, 2), (StatusCode 503, 3), (SendFailed, 4)]
         ''a'' 1 world1 =
       Inr (Continue,
            [EvAcquire, EvHeartbeat, EvRelease, EvSleep 1000000000,
             EvAcquire, EvHeartbeat, EvRelease, EvSleep 1000000000,
             EvAcquire, EvHeartbeat, EvRelease, EvSleep 1000000000,
             EvAcquire, EvHeartbeat, EvRelease, EvSleep 1000000000,
             EvAcquire, EvHeartbeat, EvRelease, EvSleep 1000000000],
            world1)"
proof -
  let ?inst = "\<lparr>App = ''svc'', InstanceID = ''a'', Status = ''UP''\<rparr>"
  let ?envs = "[(SendFailed, 0), (StatusCode 500, 1), (BuildURLFailed, 2), (StatusCode 503, 3),
                (SendFailed, 4)] :: (put_result \<times> 64 word) list"
  have sem: "sem_cur (beatThreadSemaphore (reactor world1)) < sem_size (beatThreadSemaphore (reactor world1))"
    by (simp add: world1_def br0_def)
  have nonneg: "0 \<le> sem_cur (beatThreadSemaphore (reactor world1))"
    by (simp add: world1_def br0_def)
  have b: "heap world1 1 = Some ?inst"
    using world0_facts(1) by (simp add: world1_def)
  have up: "Status ?inst = ''UP''"
    by simp
  have cfg: "config (reactor world1) = Some cfg0"
    by (simp add: world1_def br0_def)
  have envs: "\<forall>env \<in> set ?envs. \<exists>err.
            Heartbeat (DefaultZone cfg0) (App ?inst) (InstanceID ?inst) (fst env) = Some err
            \<and> err \<noteq> ErrNotFound"
    by (simp add: Heartbeat_def)
  have get: "Get (beatMap (reactor world1)) ''a'' = Inr ((Val 1, True), beatMap (reactor world1))"
    by (simp add: Get_def shard_a world1_def br0_def NewConcurrentMap_def ShardCount_def)
  have per: "Period (reactor world1) = 1000000000"
    by (simp add: world1_def br0_def)
  from transient_error_retries [OF sem nonneg b up cfg envs, of "''a''"] sem nonneg b cfg get
  show ?thesis
    by (simp add: per)
qed

lemma success_loop:
  "heap w b = Some inst \<Longrightarrow> Status inst = ''UP'' \<Longrightarrow> config (reactor w) = Some cfg
   \<Longrightarrow> sem_cur (beatThreadSemaphore (reactor w)) < sem_size (beatThreadSemaphore (reactor w))
   \<Longrightarrow> 0 \<le> sem_cur (beatThreadSemaphore (reactor w))
   \<Longrightarrow> length (beatRecordMap (reactor w)) = ShardCount
   \<Longrightarrow> (\<forall>env \<in> set envs.
          Heartbeat (DefaultZone cfg) (App inst) (InstanceID inst) (fst env) = None)
   \<Longrightarrow> \<exists>evs w'. sendInstanceBeat envs k b w = Inr (Continue, evs, w')
          \<and> count_list evs EvAcquire = length envs"
proof (induction envs arbitrary: w)
  case Nil
  show ?case by simp
next
  case (Cons env envs)
  have hb: "Heartbeat (DefaultZone cfg) (App inst) (InstanceID inst) (fst env) = None"
    using Cons.prems(7) by simp
  from pass_success [OF Cons.prems(4) Cons.prems(5) Cons.prems(1) Cons.prems(2) Cons.prems(3) hb
      Cons.prems(6), of k]
  obtain rm where rm: "length rm = ShardCount"
    and pass: "sendInstanceBeat_pass env k b w =
               Inr (Continue, [EvAcquire, EvHeartbeat, EvRelease, EvSleep (Period (reactor w))],
                    w\<lparr>reactor := (reactor w)\<lparr>beatRecordMap := rm\<rparr>\<rparr>)"
    by blast
  let ?w = "w\<lparr>reactor := (reactor w)\<lparr>beatRecordMap := rm\<rparr>\<rparr>"
  have "\<exists>evs w'. sendInstanceBeat envs k b ?w = Inr (Continue, evs, w')
          \<and> count_list evs EvAcquire = length envs"
    using Cons.prems rm by (intro Cons.IH) simp_all
  then obtain evs w' where rest: "sendInstanceBeat envs k b ?w = Inr (Continue, evs, w')"
    and cnt: "count_list evs EvAcquire = length envs"
    by blast
  show ?case
    by (simp add: pass rest cnt)
qed

text \<open>
  C2. \<^verbatim>\<open>RemoveBeatInfo\<close> deletes the entry but writes \<open>UP\<close> into the record. In the
  scenario, after record \<open>1\<close> has been added and the key removed, the record's status
  is \<open>UP\<close> and the key is absent from the live map; the key's task, run against any
  number of successful heartbeats, acquires a slot in every pass and never returns.
\<close>

theorem RemoveBeatInfo_leaves_status_UP:
  "AddBeatInfo 1 world0 = Inr world1
   \<and> (\<exists>w2. RemoveBeatInfo ''svc'' ''a'' world1 = Inr w2
          \<and> heap w2 1 = Some \<lparr>App = ''svc'', InstanceID = ''a'', Status = ''UP''\<rparr>
          \<and> Get (beatMap (reactor w2)) ''a'' = Inr ((Nil, False), beatMap (reactor w2))
          \<and> (\<forall>n. \<exists>evs w3.
                 sendInstanceBeat (replicate n (StatusCode 200, 0)) ''a'' 1 w2
                   = Inr (Continue, evs, w3)
                 \<and> count_list evs EvAcquire = n))"
proof -
  let ?inst = "\<lparr>App = ''svc'', InstanceID = ''a'', Status = ''UP''\<rparr>"
  from RemoveBeatInfo_present [OF world1_facts(3) world1_facts(5) world1_facts(1), of "''svc''"]
  obtain bm where get: "Get bm ''a'' = Inr ((Nil, False), bm)"
    and rem: "RemoveBeatInfo ''svc'' ''a'' world1 =
                 Inr (world1\<lparr>heap := (heap world1)(1 \<mapsto> ?inst\<lparr>Status := ''UP''\<rparr>),
                        reactor := (reactor world1)\<lparr>beatMap := bm\<rparr>\<rparr>)"
    by blast
  let ?w2 = "world1\<lparr>heap := (heap world1)(1 \<mapsto> ?inst\<lparr>Status := ''UP''\<rparr>),
                        reactor := (reactor world1)\<lparr>beatMap := bm\<rparr>\<rparr>"
  have b: "heap ?w2 1 = Some ?inst"
    by simp
  have up: "Status ?inst = ''UP''"
    by simp
  have cfg: "config (reactor ?w2) = Some cfg0"
    by (simp add: world1_facts)
  have sem: "sem_cur (beatThreadSemaphore (reactor ?w2)) < sem_size (beatThreadSemaphore (reactor ?w2))"
    by (simp add: world1_facts)
  have nonneg: "0 \<le> sem_cur (beatThreadSemaphore (reactor ?w2))"
    by (simp add: world1_facts)
  have len: "length (beatRecordMap (reactor ?w2)) = ShardCount"
    by (simp add: world1_facts)
  have loop: "\<exists>evs w3.
                 sendInstanceBeat (replicate n (StatusCode 200, 0)) ''a'' 1 ?w2
                   = Inr (Continue, evs, w3)
                 \<and> count_list evs EvAcquire = n" for n
  proof -
    have ok: "\<forall>env \<in> set (replicate n (StatusCode 200, 0 :: 64 word)).
          Heartbeat (DefaultZone cfg0) (App ?inst) (InstanceID ?inst) (fst env) = None"
      by (simp add: Heartbeat_def)
    from success_loop [OF b up cfg sem nonneg len ok, of "''a''"] show ?thesis
      by simp
  qed
  have "\<exists>w2. RemoveBeatInfo ''svc'' ''a'' world1 = Inr w2
          \<and> heap w2 1 = Some ?inst
          \<and> Get (beatMap (reactor w2)) ''a'' = Inr ((Nil, False), beatMap (reactor w2))
          \<and> (\<forall>n. \<exists>evs w3.
                 sendInstanceBeat (replicate n (StatusCode 200, 0)) ''a'' 1 w2
                   = Inr (Continue, evs, w3)
                 \<and> count_list evs EvAcquire = n)"
    apply (rule exI [of _ ?w2])
    apply (intro conjI allI)
       apply (rule rem)
      apply (rule b)
     apply (simp add: get)
    apply (rule loop)
    done
  with world1_is_add show ?thesis
    by (rule conjI)
qed

text \<open>
  C3. \<^verbatim>\<open>AddBeatInfo\<close> on a key that is present keeps the record that was stored. In
  the scenario, adding record \<open>2\<close> under the key of record \<open>1\<close> leaves record \<open>1\<close> in the
  live map with status \<open>UP\<close>, and the one task it launches is bound to record \<open>1\<close>, as
  is the task launched before.
\<close>

theorem AddBeatInfo_existing_key_keeps_old_record:
  "AddBeatInfo 1 world0 = Inr world1
   \<and> (\<exists>w2. AddBeatInfo 2 world1 = Inr w2
          \<and> Get (beatMap (reactor w2)) ''a'' = Inr ((Val 1, True), beatMap (reactor w2))
          \<and> heap w2 1 = Some \<lparr>App = ''svc'', InstanceID = ''a'', Status = ''UP''\<rparr>
          \<and> heap w2 2 = Some \<lparr>App = ''svc-v2'', InstanceID = ''a'', Status = ''UP''\<rparr>
          \<and> goroutines w2 = [(''a'', 1), (''a'', 1)])"
proof -
  let ?inst1 = "\<lparr>App = ''svc'', InstanceID = ''a'', Status = ''UP''\<rparr>"
  let ?inst2 = "\<lparr>App = ''svc-v2'', InstanceID = ''a'', Status = ''UP''\<rparr>"
  have get: "Get (beatMap (reactor world1)) (InstanceID ?inst2)
               = Inr ((Val 1, True), beatMap (reactor world1))"
    using world1_facts(5) by simp
  from AddBeatInfo_present [OF world1_facts(3) world1_facts(2) get world1_facts(1)]
  obtain bm where bm: "Get bm (InstanceID ?inst2) = Inr ((Val 1, True), bm)"
    and add: "AddBeatInfo 2 world1 =
                 Inr (world1\<lparr>heap := (heap world1)(1 \<mapsto> ?inst1\<lparr>Status := ''UP''\<rparr>),
                        reactor := (reactor world1)\<lparr>beatMap := bm\<rparr>,
                        goroutines := goroutines world1 @ [(InstanceID ?inst2, 1)]\<rparr>)"
    by blast
  let ?w2 = "world1\<lparr>heap := (heap world1)(1 \<mapsto> ?inst1\<lparr>Status := ''UP''\<rparr>),
                        reactor := (reactor world1)\<lparr>beatMap := bm\<rparr>,
                        goroutines := goroutines world1 @ [(InstanceID ?inst2, 1)]\<rparr>"
  have "\<exists>w2. AddBeatInfo 2 world1 = Inr w2
          \<and> Get (beatMap (reactor w2)) ''a'' = Inr ((Val 1, True), beatMap (reactor w2))
          \<and> heap w2 1 = Some ?inst1
          \<and> heap w2 2 = Some ?inst2
          \<and> goroutines w2 = [(''a'', 1), (''a'', 1)]"
    apply (rule exI [of _ ?w2])
    apply (intro conjI)
        apply (rule add)
    using bm apply simp
      apply simp
    using world1_facts(2) apply simp
    using world1_facts(8) apply simp
    done
  with world1_is_add show ?thesis
    by (rule conjI)
qed

lemma sint_times_Second:
  fixes i :: "64 word"
  assumes "0 \<le> sint i" and "sint i \<le> 9223372036"
  shows "sint (i * Second) = sint i * 1000000000"
proof -
  have s: "sint Second = 1000000000"
    by (simp add: Second_def)
  have lo: "- (2 ^ 63) \<le> sint i * 1000000000"
    using assms(1) by simp
  have hi: "sint i * 1000000000 < 2 ^ 63"
    using assms(2) by simp
  have "sint (i * Second) = signed_take_bit 63 (sint i * sint Second)"
    by (simp add: sint_word_ariths)
  also have "\<dots> = sint i * 1000000000"
    unfolding s using lo hi by (simp add: signed_take_bit_int_eq_self)
  finally show ?thesis .
qed

text \<open>
  C8, as the code has it. For every configuration and interval, \<^verbatim>\<open>NewBeatReactor\<close>
  succeeds; a non-positive interval is replaced by 5 seconds and a positive one is
  kept as the interval in seconds; for an interval of at most 9223372036 seconds the
  period is that many seconds, counted in nanoseconds (beyond that the \<^verbatim>\<open>int64\<close>
  product with \<^verbatim>\<open>time.Second\<close> wraps around); the semaphore has 20 slots, none in use;
  both maps have 32 shards.
\<close>

theorem NewBeatReactor_defaults:
  "\<exists>br. NewBeatReactor (Some cfg) interval = Inr br
      \<and> sint (clientBeatIntervalInSecs br) = (if sint interval \<le> 0 then 5 else sint interval)
      \<and> (sint interval \<le> 9223372036 \<longrightarrow>
           sint (Period br) = (if sint interval \<le> 0 then 5 else sint interval) * 1000000000)
      \<and> beatThreadCount br = 20
      \<and> beatThreadSemaphore br = \<lparr>sem_size = 20, sem_cur = 0\<rparr>
      \<and> ShardCount = 32
      \<and> length (beatMap br) = 32
      \<and> length (beatRecordMap br) = 32"
proof -
  let ?i = "if sint interval \<le> 0 then 5 else interval :: 64 word"
  let ?br = "\<lparr>config = Some cfg, beatMap = NewConcurrentMap, clientBeatIntervalInSecs = ?i,
              beatThreadCount = DefaultBeatThreadNum,
              beatThreadSemaphore = NewWeighted DefaultBeatThreadNum,
              beatRecordMap = NewConcurrentMap, Period = ?i * Second\<rparr>"
  have new: "NewBeatReactor (Some cfg) interval = Inr ?br"
    by (simp add: NewBeatReactor_def)
  have secs: "sint ?i = (if sint interval \<le> 0 then 5 else sint interval)"
    by simp
  have per: "sint (?i * Second) = (if sint interval \<le> 0 then 5 else sint interval) * 1000000000"
    if "sint interval \<le> 9223372036"
  proof (cases "sint interval \<le> 0")
    case True
    have "sint ((5 :: 64 word) * Second) = sint (5 :: 64 word) * 1000000000"
      by (rule sint_times_Second) simp_all
    with True show ?thesis by simp
  next
    case False
    then have "sint (interval * Second) = sint interval * 1000000000"
      using that by (intro sint_times_Second) simp_all
    with False show ?thesis by simp
  qed
  show ?thesis
    apply (rule exI [of _ ?br])
    apply (intro conjI impI)
           apply (rule new)
    using secs apply simp
    using per apply simp
        apply (simp add: DefaultBeatThreadNum_def)
       apply (simp add: DefaultBeatThreadNum_def NewWeighted_def)
      apply (simp add: ShardCount_def)
     apply (simp add: NewConcurrentMap_def ShardCount_def)
    apply (simp add: NewConcurrentMap_def ShardCount_def)
    done
qed

theorem NewBeatReactor_defaults_witness:
  "sint (30 :: 64 word) \<le> 9223372036
   \<and> (\<exists>br. NewBeatReactor (Some cfg0) 30 = Inr br
      \<and> sint (clientBeatIntervalInSecs br) = 30
      \<and> sint (Period br) = 30000000000
      \<and> beatThreadCount br = 20
      \<and> beatThreadSemaphore br = \<lparr>sem_size = 20, sem_cur = 0\<rparr>
      \<and> ShardCount = 32
      \<and> length (beatMap br) = 32
      \<and> length (beatRecordMap br) = 32)"
  using NewBeatReactor_defaults [of cfg0 30]
  by simp

text \<open>
  The period of C8 at an interval of 9223372037 seconds, a positive \<^verbatim>\<open>int64\<close>: the
  reactor keeps the interval, and its period is a negative duration, not 9223372037
  seconds.
\<close>

theorem NewBeatReactor_period_counterexample:
  "0 < sint (9223372037 :: 64 word)
   \<and> map_sum id (sint \<circ> clientBeatIntervalInSecs) (NewBeatReactor (Some cfg0) 9223372037)
       = Inr 9223372037
   \<and> map_sum id (sint \<circ> Period) (NewBeatReactor (Some cfg0) 9223372037)
       = Inr (- 9223372036709551616)
   \<and> (- 9223372036709551616 :: int) \<noteq> 9223372037 * 1000000000"
  by (simp add: NewBeatReactor_def Second_def)

end
